theory Spec2Isabelle
  imports
    Main
    "HOL-Library.Char_ord"
    "HOL-Library.List_Lexorder"
    "HOL-Library.Product_Lexorder"
begin

section \<open>Data model of server_hard_drive_check.py\<close>

text \<open>
  The script compares a hard drive directory (the source) against a server directory
  (the target). Its two functions are \<open>get_all_files_recursive\<close> (the indexer) and
  \<open>compare_directories\<close> (the reconciler), followed by the \<open>__main__\<close> block.

  A Python \<open>dict\<close> from relative path to size is an association list in insertion
  order: the script iterates \<open>server_files.items()\<close> in that order, so the order is
  part of the behaviour. Sizes are \<open>st_size\<close> values, which are never negative.
  Paths are POSIX paths: \<open>os.sep\<close> is \<open>/\<close>.
\<close>

type_synonym files_info = "(string \<times> nat) list"

text \<open>
  The exceptions the script distinguishes. \<open>PermissionError\<close> is a subclass of
  \<open>OSError\<close>; the constructor \<open>OSError\<close> stands for every other \<open>OSError\<close>.
  \<open>KeyboardInterrupt\<close> derives from \<open>BaseException\<close> only, and
  \<open>OtherException\<close> stands for the remaining subclasses of \<open>Exception\<close>.
  The string is \<open>str(e)\<close>.
\<close>

datatype exn =
    PermissionError string
  | OSError string
  | KeyboardInterrupt
  | OtherException string

text \<open>
  Standard output is a list of printed lines. A \<open>print\<close> of a fixed text is
  \<open>Print\<close> of that text; the error messages of the \<open>__main__\<close> block are
  \<open>Print\<close> of the formatted string. Every other f-string is one constructor that
  carries the interpolated values, in the order of the source (number formatting
  and the arrow glyph are left out).
\<close>

datatype line =
    Print string
  | ScanningDirectory string
  | DiscoveringFiles nat
  | FoundTotal nat
  | ProgressBar nat nat nat
  | FoundFile string nat
  | AccessWarning string exn
  | ProcessingDirectory string
  | FoundSummary nat nat
  | SubdirLine string nat
  | HardDriveHeader string
  | ServerHeader string
  | Checking string
  | Missing string nat
  | Identical string string nat
  | IdenticalMulti string "string list" nat
  | SizeDiff string nat "(string \<times> nat) list"
  | TotalHardDrive nat
  | MissingCount nat
  | SizeDiffCount nat
  | IdenticalCount nat
  | TotalServer nat
  | MissingDetail string nat
  | SizeDiffDetail string nat "(string \<times> nat) list"

section \<open>The file system as the script sees it\<close>

text \<open>
  What a directory entry is. \<open>Path.is_file()\<close>, \<open>Path.is_dir()\<close> and
  \<open>Path.stat()\<close> follow symbolic links, so a link is modelled by what it resolves
  to: \<open>Symlink None\<close> is a broken link.
\<close>

datatype file_type = Regular | Directory | Socket | BlockDevice | CharDevice | Fifo

datatype node = Plain file_type | Symlink "file_type option"

fun is_file :: "node \<Rightarrow> bool" where
  "is_file (Plain t) = (t = Regular)"
| "is_file (Symlink target) = (target = Some Regular)"

fun is_dir :: "node \<Rightarrow> bool" where
  "is_dir (Plain t) = (t = Directory)"
| "is_dir (Symlink target) = (target = Some Directory)"

text \<open>
  One item yielded by \<open>directory.rglob('*')\<close>, with the answers the file system
  gives for it: \<open>rel_path\<close> is \<open>str(item.relative_to(directory))\<close>;
  \<open>probe\<close> is what the type queries \<open>is_file()\<close> and \<open>is_dir()\<close> find,
  or the exception they raise (they re-raise a permission error of the underlying
  \<open>stat\<close>); \<open>stat_size\<close> is what \<open>item.stat().st_size\<close> on line 73 returns
  or raises.
\<close>

record entry =
  rel_path :: string
  probe :: "exn + node"
  stat_size :: "exn + nat"

text \<open>
  \<open>os.path.exists\<close>, \<open>os.path.isdir\<close> and the traversal of a directory. The
  file system does not change during a run: both passes of the indexer see the
  same traversal.
\<close>

record filesystem =
  os_path_exists :: "string \<Rightarrow> bool"
  os_path_isdir :: "string \<Rightarrow> bool"
  rglob :: "string \<Rightarrow> entry list"

section \<open>The indexer: get_all_files_recursive, lines 29 to 114\<close>

definition os_sep :: char where
  "os_sep = CHR ''/''"

text \<open>\<open>files_info[key] = value\<close>: an existing key keeps its place.\<close>

fun dict_set :: "('k \<times> 'v) list \<Rightarrow> 'k \<Rightarrow> 'v \<Rightarrow> ('k \<times> 'v) list" where
  "dict_set [] k v = [(k, v)]"
| "dict_set ((k', v') # d) k v =
     (if k' = k then (k, v) # d else (k', v') # dict_set d k v)"

text \<open>\<open>directories_processed.add(x)\<close> on a set kept as a duplicate-free list.\<close>

definition set_add :: "string list \<Rightarrow> string \<Rightarrow> string list" where
  "set_add xs x = (if x \<in> set xs then xs else xs @ [x])"

text \<open>\<open>str(relative_path.parent)\<close>: \<open>.\<close> for a path with no slash.\<close>

definition parent_dir :: "string \<Rightarrow> string" where
  "parent_dir p =
     (if os_sep \<in> set p
      then rev (tl (dropWhile (\<lambda>c. c \<noteq> os_sep) (rev p)))
      else ''.'')"

definition startswith :: "string \<Rightarrow> string \<Rightarrow> bool" where
  "startswith s pre = (take (length pre) s = pre)"

text \<open>
  The exceptions \<open>except (OSError, PermissionError)\<close> on line 84 catches.
\<close>

fun is_os_error :: "exn \<Rightarrow> bool" where
  "is_os_error (PermissionError _) = True"
| "is_os_error (OSError _) = True"
| "is_os_error _ = False"

text \<open>
  Lines 42 to 47, the first pass. It returns what it printed and either the count
  or the exception that ended it.
\<close>

fun count_files :: "entry list \<Rightarrow> nat \<Rightarrow> line list \<Rightarrow> line list \<times> (exn + nat)" where
  "count_files [] total_files out = (out, Inr total_files)"
| "count_files (item # rest) total_files out =
     (case probe item of
        Inl e \<Rightarrow> (out, Inl e)
      | Inr n \<Rightarrow>
          if is_file n then
            (let total_files1 = total_files + 1
             in count_files rest total_files1
                  (if total_files1 mod 100 = 0 \<or> total_files1 < 100
                   then out @ [DiscoveringFiles total_files1]
                   else out))
          else count_files rest total_files out)"

text \<open>Lines 55 to 65: \<open>bar_width\<close> is 50; nothing is printed for an empty tree.\<close>

definition update_progress_bar :: "nat \<Rightarrow> nat \<Rightarrow> line list" where
  "update_progress_bar current total_files =
     (if total_files = 0 then []
      else [ProgressBar (50 * current div total_files) current total_files])"

record scan_state =
  files_info :: files_info
  directories_processed :: "string list"
  processed_files :: nat
  scan_printed :: "line list"

text \<open>
  Lines 69 to 99, the body of the second loop. The result is the state when the
  body ends and the exception that left it, if any.
\<close>

definition scan_entry ::
  "bool \<Rightarrow> nat \<Rightarrow> scan_state \<Rightarrow> entry \<Rightarrow> scan_state \<times> exn option" where
  "scan_entry verbose total_files st item_path =
     (case probe item_path of
        Inl e \<Rightarrow> (st, Some e)
      | Inr n \<Rightarrow>
          if is_file n then
            (let relative_path = rel_path item_path;
                 tried =
                   (case stat_size item_path of
                      Inr file_size \<Rightarrow>
                        (st\<lparr>files_info := dict_set (files_info st) relative_path file_size,
                            directories_processed :=
                              (if parent_dir relative_path \<noteq> ''.''
                               then set_add (directories_processed st)
                                      (parent_dir relative_path)
                               else directories_processed st),
                            scan_printed := scan_printed st @
                              (if verbose then [FoundFile relative_path file_size] else [])\<rparr>,
                         None)
                    | Inl e \<Rightarrow>
                        if is_os_error e then
                          (st\<lparr>scan_printed := scan_printed st @
                                (if verbose then [AccessWarning relative_path e] else [])\<rparr>,
                           None)
                        else (st, Some e))
             in case tried of
                  (st1, Some e) \<Rightarrow> (st1, Some e)
                | (st1, None) \<Rightarrow>
                    (st1\<lparr>processed_files := processed_files st1 + 1,
                         scan_printed := scan_printed st1 @
                           (if \<not> verbose
                            then update_progress_bar (processed_files st1 + 1) total_files
                            else [])\<rparr>,
                     None))
          else if is_dir n then
            (st\<lparr>directories_processed :=
                  set_add (directories_processed st) (rel_path item_path),
                scan_printed := scan_printed st @
                  (if verbose then [ProcessingDirectory (rel_path item_path)] else [])\<rparr>,
             None)
          else (st, None))"

fun scan_entries ::
  "bool \<Rightarrow> nat \<Rightarrow> entry list \<Rightarrow> scan_state \<Rightarrow> scan_state \<times> exn option" where
  "scan_entries verbose total_files [] st = (st, None)"
| "scan_entries verbose total_files (item_path # rest) st =
     (case scan_entry verbose total_files st item_path of
        (st1, Some e) \<Rightarrow> (st1, Some e)
      | (st1, None) \<Rightarrow> scan_entries verbose total_files rest st1)"

text \<open>Lines 108 to 112: the per-subdirectory report of verbose mode.\<close>

definition subdir_report :: "scan_state \<Rightarrow> line list" where
  "subdir_report st =
     Print ''  Subdirectories processed:'' #
     map (\<lambda>subdir.
            SubdirLine subdir
              (length (filter (\<lambda>f. startswith f (subdir @ [os_sep]) \<or>
                                     startswith f (subdir @ ''/''))
                         (map fst (files_info st)))))
       (sort (directories_processed st))"

text \<open>
  The whole function. \<open>args.verbose\<close>, a global of the script, is a parameter.
  The result is what was printed and either the returned \<open>files_info\<close> or the
  exception that left the function.
\<close>

definition get_all_files_recursive ::
  "filesystem \<Rightarrow> bool \<Rightarrow> string \<Rightarrow> line list \<times> (exn + files_info)" where
  "get_all_files_recursive fs verbose directory_path =
     (case count_files (rglob fs directory_path) 0
             [ScanningDirectory directory_path,
              Print ''Counting files for progress tracking...''] of
        (out, Inl e) \<Rightarrow> (out, Inl e)
      | (out, Inr total_files) \<Rightarrow>
          (case scan_entries verbose total_files (rglob fs directory_path)
                  \<lparr>files_info = [], directories_processed = [], processed_files = 0,
                   scan_printed = out @ [FoundTotal total_files]\<rparr> of
             (st, Some e) \<Rightarrow> (scan_printed st, Inl e)
           | (st, None) \<Rightarrow>
               (scan_printed st @
                (if \<not> verbose then [Print []] else []) @
                [FoundSummary (length (files_info st))
                   (length (directories_processed st))] @
                (if verbose \<and> directories_processed st \<noteq> []
                 then subdir_report st else []),
                Inr (files_info st))))"

section \<open>The reconciler: compare_directories\<close>

text \<open>\<open>os.path.basename\<close> on POSIX: everything after the last slash.\<close>

definition basename :: "string \<Rightarrow> string" where
  "basename p = rev (takeWhile (\<lambda>c. c \<noteq> CHR ''/'') (rev p))"

text \<open>
  Lines 141 to 146: \<open>server_files_by_name\<close> maps a filename to the list of
  \<open>(path, size)\<close> pairs of the server files with that basename. The dictionary is
  only looked up, never iterated, so it is a map.
\<close>

type_synonym name_index = "string \<rightharpoonup> (string \<times> nat) list"

definition add_by_name :: "name_index \<Rightarrow> string \<times> nat \<Rightarrow> name_index" where
  "add_by_name by_name item =
     (let filename = basename (fst item);
          by_name1 = (case by_name filename of
                        None \<Rightarrow> by_name(filename \<mapsto> [])
                      | Some _ \<Rightarrow> by_name)
      in case by_name1 filename of
           None \<Rightarrow> by_name1
         | Some instances \<Rightarrow> by_name1(filename \<mapsto> instances @ [item]))"

definition server_files_by_name :: "files_info \<Rightarrow> name_index" where
  "server_files_by_name server_files = foldl add_by_name Map.empty server_files"

text \<open>Lines 148 to 153: the statistics, and what the loop has printed so far.\<close>

record cmp_state =
  missing_files :: nat
  size_mismatch_files :: nat
  identical_files :: nat
  missing_file_details :: "(string \<times> nat) list"
  mismatch_file_details :: "(string \<times> nat \<times> (string \<times> nat) list) list"
  printed :: "line list"

definition init_state :: cmp_state where
  "init_state =
     \<lparr>missing_files = 0, size_mismatch_files = 0, identical_files = 0,
      missing_file_details = [], mismatch_file_details = [], printed = []\<rparr>"

text \<open>Lines 157 to 185: the body of the loop over the hard drive files.\<close>

definition check_file :: "name_index \<Rightarrow> cmp_state \<Rightarrow> string \<times> nat \<Rightarrow> cmp_state" where
  "check_file by_name st item =
     (let file_path = fst item;
          hard_drive_size = snd item;
          filename = basename file_path;
          st1 = st\<lparr>printed := printed st @ [Checking file_path]\<rparr>
      in case by_name filename of
           None \<Rightarrow>
             st1\<lparr>printed := printed st1 @ [Missing filename hard_drive_size],
                 missing_files := missing_files st1 + 1,
                 missing_file_details :=
                   missing_file_details st1 @ [(file_path, hard_drive_size)]\<rparr>
         | Some all_server_instances \<Rightarrow>
             (let matching_files =
                    filter (\<lambda>entry. snd entry = hard_drive_size) all_server_instances
              in if matching_files \<noteq> [] then
                   st1\<lparr>printed := printed st1 @
                         [if length matching_files = 1
                          then Identical filename (fst (matching_files ! 0)) hard_drive_size
                          else IdenticalMulti filename (map fst matching_files)
                                 hard_drive_size],
                       identical_files := identical_files st1 + 1\<rparr>
                 else
                   st1\<lparr>printed := printed st1 @
                         [SizeDiff filename hard_drive_size all_server_instances],
                       size_mismatch_files := size_mismatch_files st1 + 1,
                       mismatch_file_details :=
                         mismatch_file_details st1 @
                         [(file_path, hard_drive_size, all_server_instances)]\<rparr>))"

text \<open>
  Line 156: \<open>sorted(hard_drive_files.items())\<close> sorts the \<open>(path, size)\<close> tuples:
  by path, code point by code point, a proper prefix first, and by size among equal
  paths. That is the lexicographic order of \<open>string \<times> nat\<close>.
\<close>

definition compare_files :: "files_info \<Rightarrow> files_info \<Rightarrow> cmp_state" where
  "compare_files hard_drive_files server_files =
     foldl (check_file (server_files_by_name server_files)) init_state
       (sort hard_drive_files)"

text \<open>Lines 188 to 206: the summary and the two detail listings.\<close>

definition summary :: "files_info \<Rightarrow> files_info \<Rightarrow> cmp_state \<Rightarrow> line list" where
  "summary hard_drive_files server_files st =
     [Print (CHR 0x0A # replicate 80 (CHR ''='')),
      Print ''SUMMARY:'',
      TotalHardDrive (length hard_drive_files),
      MissingCount (missing_files st),
      SizeDiffCount (size_mismatch_files st),
      IdenticalCount (identical_files st),
      TotalServer (length server_files)] @
     (if missing_files st > 0
      then Print (CHR 0x0A # ''Missing files details:'') #
           map (\<lambda>(missing_file, size). MissingDetail missing_file size)
             (missing_file_details st)
      else []) @
     (if size_mismatch_files st > 0
      then Print (CHR 0x0A # ''Size mismatch files details:'') #
           map (\<lambda>(mismatch_file, hd_size, server_instances).
                  SizeDiffDetail mismatch_file hd_size server_instances)
             (mismatch_file_details st)
      else [])"

text \<open>The whole of \<open>compare_directories\<close>, lines 117 to 206.\<close>

definition compare_directories ::
  "filesystem \<Rightarrow> bool \<Rightarrow> string \<Rightarrow> string \<Rightarrow> line list \<times> (exn + unit)" where
  "compare_directories fs verbose hard_drive_path server_path =
     (let out0 = [Print (CHR 0x0A # ''Comparing files between:''),
                  HardDriveHeader hard_drive_path,
                  ServerHeader server_path,
                  Print (replicate 80 (CHR ''='')),
                  Print (CHR 0x0A # ''1. SCANNING HARD DRIVE:'')]
      in case get_all_files_recursive fs verbose hard_drive_path of
           (out1, Inl e) \<Rightarrow> (out0 @ out1, Inl e)
         | (out1, Inr hard_drive_files) \<Rightarrow>
             (let out2 = out0 @ out1 @
                    [Print (replicate 80 (CHR ''-'')),
                     Print (CHR 0x0A # ''2. SCANNING SERVER DIRECTORY:'')]
              in case get_all_files_recursive fs verbose server_path of
                   (out3, Inl e) \<Rightarrow> (out2 @ out3, Inl e)
                 | (out3, Inr server_files) \<Rightarrow>
                     (let st = compare_files hard_drive_files server_files
                      in (out2 @ out3 @
                          [Print (replicate 80 (CHR ''='')),
                           Print (CHR 0x0A # ''3. COMPARING FILES:'')] @
                          printed st @
                          summary hard_drive_files server_files st,
                          Inr ()))))"

section \<open>The script body, lines 246 to 281\<close>

text \<open>The six error messages of the path validation, as formatted.\<close>

definition err_hard_drive_missing :: "string \<Rightarrow> string" where
  "err_hard_drive_missing p =
     ''ERROR: Hard drive path '' @ [CHR 0x27] @ p @ [CHR 0x27] @ '' does not exist.''"

definition err_server_missing :: "string \<Rightarrow> string" where
  "err_server_missing p =
     ''ERROR: Server directory path '' @ [CHR 0x27] @ p @ [CHR 0x27] @ '' does not exist.''"

definition err_both_missing :: string where
  "err_both_missing = ''ERROR: Both directory paths do not exist.''"

definition err_hard_drive_not_dir :: "string \<Rightarrow> string" where
  "err_hard_drive_not_dir p =
     ''ERROR: Hard drive path '' @ [CHR 0x27] @ p @ [CHR 0x27] @ '' is not a directory.''"

definition err_server_not_dir :: "string \<Rightarrow> string" where
  "err_server_not_dir p =
     ''ERROR: Server directory path '' @ [CHR 0x27] @ p @ [CHR 0x27] @
     '' is not a directory.''"

definition err_both_not_dirs :: string where
  "err_both_not_dirs = ''ERROR: The paths entered are not directories.''"

text \<open>\<open>str(e)\<close>.\<close>

fun exn_str :: "exn \<Rightarrow> string" where
  "exn_str (PermissionError m) = m"
| "exn_str (OSError m) = m"
| "exn_str KeyboardInterrupt = []"
| "exn_str (OtherException m) = m"

text \<open>
  The script after argument parsing: what it prints and its exit status.
  \<open>sys.exit(1)\<close> ends the run with status 1; a run that reaches the end of the
  script ends with status 0.
\<close>

definition main :: "filesystem \<Rightarrow> bool \<Rightarrow> string \<Rightarrow> string \<Rightarrow> line list \<times> nat" where
  "main fs verbose hard_drive_file_path server_file_path =
     (if \<not> (os_path_exists fs hard_drive_file_path \<and> os_path_exists fs server_file_path)
      then
        (if \<not> os_path_exists fs hard_drive_file_path
         then ([Print (err_hard_drive_missing hard_drive_file_path)], 1)
         else if \<not> os_path_exists fs server_file_path
         then ([Print (err_server_missing server_file_path)], 1)
         else ([Print err_both_missing], 1))
      else if \<not> (os_path_isdir fs hard_drive_file_path \<and> os_path_isdir fs server_file_path)
      then
        (if \<not> os_path_isdir fs hard_drive_file_path
         then ([Print (err_hard_drive_not_dir hard_drive_file_path)], 1)
         else if \<not> os_path_isdir fs server_file_path
         then ([Print (err_server_not_dir server_file_path)], 1)
         else ([Print err_both_not_dirs], 1))
      else
        (case compare_directories fs verbose hard_drive_file_path server_file_path of
           (out, Inr _) \<Rightarrow> (out, 0)
         | (out, Inl (PermissionError m)) \<Rightarrow>
             (out @ [Print (''ERROR: Permission denied accessing files: '' @ m)], 1)
         | (out, Inl KeyboardInterrupt) \<Rightarrow>
             (out @ [Print (CHR 0x0A # ''Operation cancelled by user.'')], 1)
         | (out, Inl e) \<Rightarrow>
             (out @ [Print (''ERROR: An unexpected error occurred: '' @ exn_str e)], 1)))"

section \<open>Vocabulary of the properties\<close>

text \<open>
  The server entries that share a basename, in the order of \<open>server_files\<close>, and
  those among them whose size is a given size.
\<close>

definition same_name :: "files_info \<Rightarrow> string \<Rightarrow> (string \<times> nat) list" where
  "same_name server_files filename =
     filter (\<lambda>entry. basename (fst entry) = filename) server_files"

definition size_matches :: "files_info \<Rightarrow> string \<Rightarrow> nat \<Rightarrow> (string \<times> nat) list" where
  "size_matches server_files filename hard_drive_size =
     filter (\<lambda>entry. snd entry = hard_drive_size) (same_name server_files filename)"

text \<open>The three outcomes, read off the line printed for a file.\<close>

fun is_missing :: "line \<Rightarrow> bool" where
  "is_missing (Missing _ _) = True"
| "is_missing _ = False"

fun is_identical :: "line \<Rightarrow> bool" where
  "is_identical (Identical _ _ _) = True"
| "is_identical (IdenticalMulti _ _ _) = True"
| "is_identical _ = False"

fun is_size_diff :: "line \<Rightarrow> bool" where
  "is_size_diff (SizeDiff _ _ _) = True"
| "is_size_diff _ = False"

definition is_outcome :: "line \<Rightarrow> bool" where
  "is_outcome v = (is_missing v \<or> is_identical v \<or> is_size_diff v)"

text \<open>
  The second line \<open>check_file\<close> prints for an item, as a function of the item
  (\<open>printed_check_file\<close> below proves that it is).
\<close>

definition verdict :: "name_index \<Rightarrow> string \<times> nat \<Rightarrow> line" where
  "verdict by_name item =
     (case by_name (basename (fst item)) of
        None \<Rightarrow> Missing (basename (fst item)) (snd item)
      | Some instances \<Rightarrow>
          (let matching = filter (\<lambda>entry. snd entry = snd item) instances
           in if matching \<noteq> [] then
                (if length matching = 1
                 then Identical (basename (fst item)) (fst (matching ! 0)) (snd item)
                 else IdenticalMulti (basename (fst item)) (map fst matching) (snd item))
              else SizeDiff (basename (fst item)) (snd item) instances))"

text \<open>The paths of the lines of one kind, in the order printed.\<close>

definition checking_paths :: "line list \<Rightarrow> string list" where
  "checking_paths ls = concat (map (\<lambda>l. case l of Checking p \<Rightarrow> [p] | _ \<Rightarrow> []) ls)"

definition missing_detail_paths :: "line list \<Rightarrow> string list" where
  "missing_detail_paths ls =
     concat (map (\<lambda>l. case l of MissingDetail p _ \<Rightarrow> [p] | _ \<Rightarrow> []) ls)"

definition size_diff_detail_paths :: "line list \<Rightarrow> string list" where
  "size_diff_detail_paths ls =
     concat (map (\<lambda>l. case l of SizeDiffDetail p _ _ \<Rightarrow> [p] | _ \<Rightarrow> []) ls)"

text \<open>
  Two small trees for the concrete instances: the hard drive holds three files, the
  server holds two copies of \<open>a.txt\<close> of the right size and two files named
  \<open>d.txt\<close> of other sizes.
\<close>

definition demo_hard_drive :: files_info where
  "demo_hard_drive = [(''b.txt'', 2), (''c/d.txt'', 7), (''a.txt'', 1)]"

definition demo_server :: files_info where
  "demo_server = [(''sub/a.txt'', 1), (''x/d.txt'', 5), (''d.txt'', 6), (''y/a.txt'', 1)]"

text \<open>
  A file system for the concrete instances. \<open>/hd\<close> and \<open>/srv\<close> hold the two
  trees above; \<open>/hd\<close> also holds a socket and a file whose size query is denied.
  \<open>/locked\<close> is a directory whose entries cannot be examined, \<open>/busy\<close> one
  during whose scan the user interrupts, \<open>/links\<close> one that holds symbolic
  links and special files, and \<open>/note.txt\<close> is a file.
\<close>

definition regular_entry :: "string \<Rightarrow> nat \<Rightarrow> entry" where
  "regular_entry p s = \<lparr>rel_path = p, probe = Inr (Plain Regular), stat_size = Inr s\<rparr>"

definition directory_entry :: "string \<Rightarrow> entry" where
  "directory_entry p = \<lparr>rel_path = p, probe = Inr (Plain Directory), stat_size = Inr 4096\<rparr>"

definition demo_hd_listing :: "entry list" where
  "demo_hd_listing =
     [regular_entry ''b.txt'' 2,
      directory_entry ''c'',
      regular_entry ''c/d.txt'' 7,
      \<lparr>rel_path = ''secret.txt'', probe = Inr (Plain Regular),
       stat_size = Inl (PermissionError ''Permission denied'')\<rparr>,
      \<lparr>rel_path = ''ctl.sock'', probe = Inr (Plain Socket), stat_size = Inr 0\<rparr>,
      regular_entry ''a.txt'' 1]"

definition demo_srv_listing :: "entry list" where
  "demo_srv_listing =
     [directory_entry ''sub'',
      regular_entry ''sub/a.txt'' 1,
      directory_entry ''x'',
      regular_entry ''x/d.txt'' 5,
      regular_entry ''d.txt'' 6,
      directory_entry ''y'',
      regular_entry ''y/a.txt'' 1]"

definition demo_links_listing :: "entry list" where
  "demo_links_listing =
     [\<lparr>rel_path = ''link.txt'', probe = Inr (Symlink (Some Regular)), stat_size = Inr 5\<rparr>,
      \<lparr>rel_path = ''dangling'', probe = Inr (Symlink None),
       stat_size = Inl (OSError ''No such file or directory'')\<rparr>,
      \<lparr>rel_path = ''pipe'', probe = Inr (Plain Fifo), stat_size = Inr 0\<rparr>]"

definition demo_fs :: filesystem where
  "demo_fs =
     \<lparr>os_path_exists =
        (\<lambda>p. p \<in> set [''/hd'', ''/srv'', ''/locked'', ''/busy'', ''/links'', ''/note.txt'']),
      os_path_isdir =
        (\<lambda>p. p \<in> set [''/hd'', ''/srv'', ''/locked'', ''/busy'', ''/links'']),
      rglob =
        (\<lambda>p. if p = ''/hd'' then demo_hd_listing
             else if p = ''/srv'' then demo_srv_listing
             else if p = ''/links'' then demo_links_listing
             else if p = ''/locked'' then
               [\<lparr>rel_path = ''x'', probe = Inl (PermissionError ''Permission denied''),
                 stat_size = Inl (PermissionError ''Permission denied'')\<rparr>]
             else if p = ''/busy'' then
               [\<lparr>rel_path = ''big.bin'', probe = Inr (Plain Regular),
                 stat_size = Inl KeyboardInterrupt\<rparr>]
             else [])\<rparr>"

text \<open>The two messages of the combined error branches, lines 255 and 267.\<close>

definition combined_error :: "line \<Rightarrow> bool" where
  "combined_error l = (l = Print err_both_missing \<or> l = Print err_both_not_dirs)"

text \<open>
  What the indexer is expected to return for a traversal: one pair for every item
  that is a file and whose size query answers, in the order of the traversal.
\<close>

definition indexed :: "entry list \<Rightarrow> files_info" where
  "indexed listing =
     concat (map (\<lambda>e. case probe e of
                          Inl _ \<Rightarrow> []
                        | Inr n \<Rightarrow>
                            if is_file n
                            then (case stat_size e of
                                    Inl _ \<Rightarrow> []
                                  | Inr s \<Rightarrow> [(rel_path e, s)])
                            else [])
               listing)"






section \<open>Properties of the reconciler\<close>

lemma add_by_name_apply:
  "add_by_name m item fn =
     (if basename (fst item) = fn
      then Some ((case m fn of None \<Rightarrow> [] | Some l \<Rightarrow> l) @ [item])
      else m fn)"
  by (simp add: add_by_name_def Let_def split: option.splits)

lemma foldl_add_by_name:
  "foldl add_by_name m sf fn =
     (case m fn of
        None \<Rightarrow> (if same_name sf fn = [] then None else Some (same_name sf fn))
      | Some l \<Rightarrow> Some (l @ same_name sf fn))"
proof (induction sf arbitrary: m)
  case Nil
  then show ?case by (simp add: same_name_def split: option.splits)
next
  case (Cons e sf)
  have "foldl add_by_name m (e # sf) fn = foldl add_by_name (add_by_name m e) sf fn"
    by simp
  also have "\<dots> =
     (case add_by_name m e fn of
        None \<Rightarrow> (if same_name sf fn = [] then None else Some (same_name sf fn))
      | Some l \<Rightarrow> Some (l @ same_name sf fn))"
    by (rule Cons.IH)
  also have "\<dots> =
     (case m fn of
        None \<Rightarrow> (if same_name (e # sf) fn = [] then None
                 else Some (same_name (e # sf) fn))
      | Some l \<Rightarrow> Some (l @ same_name (e # sf) fn))"
    unfolding add_by_name_apply
    by (simp add: same_name_def split: option.splits)
  finally show ?case .
qed

lemma server_files_by_name_eq:
  "server_files_by_name sf fn =
     (if same_name sf fn = [] then None else Some (same_name sf fn))"
  by (simp add: server_files_by_name_def foldl_add_by_name)

lemma is_outcome_verdict: "is_outcome (verdict bn item)"
  by (simp add: verdict_def is_outcome_def Let_def split: option.splits)

lemma verdict_not_Checking: "Checking p \<noteq> verdict bn item"
  by (simp add: verdict_def Let_def split: option.splits)

lemma printed_check_file:
  "printed (check_file bn st item) = printed st @ [Checking (fst item), verdict bn item]"
  by (simp add: check_file_def verdict_def Let_def split: option.splits)

lemma missing_files_check_file:
  "missing_files (check_file bn st item) =
     missing_files st + (if is_missing (verdict bn item) then 1 else 0)"
  by (simp add: check_file_def verdict_def Let_def split: option.splits)

lemma identical_files_check_file:
  "identical_files (check_file bn st item) =
     identical_files st + (if is_identical (verdict bn item) then 1 else 0)"
  by (simp add: check_file_def verdict_def Let_def split: option.splits)

lemma size_mismatch_files_check_file:
  "size_mismatch_files (check_file bn st item) =
     size_mismatch_files st + (if is_size_diff (verdict bn item) then 1 else 0)"
  by (simp add: check_file_def verdict_def Let_def split: option.splits)

lemma printed_loop:
  "printed (foldl (check_file bn) st xs) =
     printed st @ concat (map (\<lambda>item. [Checking (fst item), verdict bn item]) xs)"
  by (induction xs arbitrary: st) (simp_all add: printed_check_file)

lemma missing_files_loop:
  "missing_files (foldl (check_file bn) st xs) =
     missing_files st + length (filter is_missing (map (verdict bn) xs))"
  by (induction xs arbitrary: st) (simp_all add: missing_files_check_file)

lemma identical_files_loop:
  "identical_files (foldl (check_file bn) st xs) =
     identical_files st + length (filter is_identical (map (verdict bn) xs))"
  by (induction xs arbitrary: st) (simp_all add: identical_files_check_file)

lemma size_mismatch_files_loop:
  "size_mismatch_files (foldl (check_file bn) st xs) =
     size_mismatch_files st + length (filter is_size_diff (map (verdict bn) xs))"
  by (induction xs arbitrary: st) (simp_all add: size_mismatch_files_check_file)

lemma outcome_partition:
  "list_all is_outcome vs \<Longrightarrow>
     length (filter is_missing vs) + length (filter is_identical vs) +
     length (filter is_size_diff vs) = length vs"
proof (induction vs)
  case Nil
  then show ?case by simp
next
  case (Cons v vs)
  then show ?case by (cases v) (simp_all add: is_outcome_def)
qed

text \<open>
  Claim C1. In every run of the comparison loop each hard drive file gets one line
  \<open>Checking\<close> followed by exactly one outcome line (\<open>Missing\<close>,
  \<open>Identical\<close> or \<open>SizeDiff\<close>); the three counters count the outcome lines
  of their kind, and their sum is \<open>len(hard_drive_files)\<close>, the total the summary
  prints.
\<close>

theorem outcome_counts_sum:
  "\<exists>vs. length vs = length hard_drive_files \<and>
        list_all is_outcome vs \<and>
        printed (compare_files hard_drive_files server_files) =
          concat (map (\<lambda>(item, v). [Checking (fst item), v])
                    (zip (sort hard_drive_files) vs)) \<and>
        missing_files (compare_files hard_drive_files server_files) =
          length (filter is_missing vs) \<and>
        identical_files (compare_files hard_drive_files server_files) =
          length (filter is_identical vs) \<and>
        size_mismatch_files (compare_files hard_drive_files server_files) =
          length (filter is_size_diff vs) \<and>
        missing_files (compare_files hard_drive_files server_files) +
        identical_files (compare_files hard_drive_files server_files) +
        size_mismatch_files (compare_files hard_drive_files server_files) =
          length hard_drive_files"
proof -
  define bn where "bn = server_files_by_name server_files"
  define xs where "xs = sort hard_drive_files"
  define vs where "vs = map (verdict bn) xs"
  have len: "length vs = length hard_drive_files"
    by (simp add: vs_def xs_def)
  have all: "list_all is_outcome vs"
    by (simp add: vs_def list_all_iff is_outcome_verdict)
  have zip: "zip xs vs = map (\<lambda>item. (item, verdict bn item)) xs"
    by (simp add: vs_def zip_map2 zip_same_conv_map)
  have pr: "printed (compare_files hard_drive_files server_files) =
          concat (map (\<lambda>(item, v). [Checking (fst item), v]) (zip xs vs))"
    unfolding zip by (simp add: compare_files_def printed_loop init_state_def bn_def xs_def o_def)
  have m: "missing_files (compare_files hard_drive_files server_files) =
          length (filter is_missing vs)"
    by (simp add: compare_files_def missing_files_loop init_state_def bn_def xs_def vs_def)
  have i: "identical_files (compare_files hard_drive_files server_files) =
          length (filter is_identical vs)"
    by (simp add: compare_files_def identical_files_loop init_state_def bn_def xs_def vs_def)
  have d: "size_mismatch_files (compare_files hard_drive_files server_files) =
          length (filter is_size_diff vs)"
    by (simp add: compare_files_def size_mismatch_files_loop init_state_def bn_def xs_def vs_def)
  have sum: "missing_files (compare_files hard_drive_files server_files) +
        identical_files (compare_files hard_drive_files server_files) +
        size_mismatch_files (compare_files hard_drive_files server_files) =
          length hard_drive_files"
    unfolding m i d using outcome_partition [OF all] len by simp
  from len all pr m i d sum show ?thesis
    unfolding xs_def by blast
qed

theorem outcome_counts_sum_witness:
  "missing_files (compare_files demo_hard_drive demo_server) +
   identical_files (compare_files demo_hard_drive demo_server) +
   size_mismatch_files (compare_files demo_hard_drive demo_server) = 3 \<and>
   missing_files (compare_files demo_hard_drive demo_server) = 1 \<and>
   identical_files (compare_files demo_hard_drive demo_server) = 1 \<and>
   size_mismatch_files (compare_files demo_hard_drive demo_server) = 1"
proof -
  have "missing_files (compare_files demo_hard_drive demo_server) +
        identical_files (compare_files demo_hard_drive demo_server) +
        size_mismatch_files (compare_files demo_hard_drive demo_server) =
        length demo_hard_drive"
    using outcome_counts_sum [of demo_hard_drive demo_server] by blast
  moreover have "length demo_hard_drive = 3"
    by (simp add: demo_hard_drive_def)
  moreover have "missing_files (compare_files demo_hard_drive demo_server) = 1"
    by code_simp
  moreover have "identical_files (compare_files demo_hard_drive demo_server) = 1"
    by code_simp
  moreover have "size_mismatch_files (compare_files demo_hard_drive demo_server) = 1"
    by code_simp
  ultimately show ?thesis by simp
qed

lemma verdict_by_name:
  "verdict (server_files_by_name sf) item =
     (if same_name sf (basename (fst item)) = []
      then Missing (basename (fst item)) (snd item)
      else if size_matches sf (basename (fst item)) (snd item) \<noteq> [] then
        (if length (size_matches sf (basename (fst item)) (snd item)) = 1
         then Identical (basename (fst item))
                (fst (size_matches sf (basename (fst item)) (snd item) ! 0)) (snd item)
         else IdenticalMulti (basename (fst item))
                (map fst (size_matches sf (basename (fst item)) (snd item))) (snd item))
      else SizeDiff (basename (fst item)) (snd item) (same_name sf (basename (fst item))))"
  by (simp add: verdict_def server_files_by_name_eq size_matches_def Let_def)

lemma distinct_map_fst_sort:
  fixes xs :: "(string \<times> nat) list"
  shows "distinct (map fst (sort xs)) = distinct (map fst xs)"
proof -
  have "distinct (map fst (sort xs)) = (distinct (sort xs) \<and> inj_on fst (set (sort xs)))"
    by (rule distinct_map)
  also have "\<dots> = (distinct xs \<and> inj_on fst (set xs))"
    by simp
  also have "\<dots> = distinct (map fst xs)"
    by (rule distinct_map [symmetric])
  finally show ?thesis .
qed

lemma sorted_map_fst_sort:
  fixes xs :: "(string \<times> nat) list"
  shows "sorted (map fst (sort xs))"
proof -
  have "sorted (sort xs)" by simp
  then have "sorted_wrt (\<lambda>x y. fst x \<le> fst y) (sort xs)"
    by (rule sorted_wrt_mono_rel [rotated]) (auto simp: less_eq_prod_def)
  then show ?thesis by (simp add: sorted_map)
qed

lemma Checking_in_loop_lines:
  "Checking p \<in> set (concat (map (\<lambda>item. [Checking (fst item), verdict bn item]) xs))
     \<Longrightarrow> p \<in> fst ` set xs"
  by (auto simp: verdict_not_Checking)

lemma printed_split:
  assumes "item \<in> set hard_drive_files" and "distinct (map fst hard_drive_files)"
  shows "\<exists>before after.
           printed (compare_files hard_drive_files server_files) =
             before @ [Checking (fst item), verdict (server_files_by_name server_files) item]
               @ after \<and>
           Checking (fst item) \<notin> set before \<and> Checking (fst item) \<notin> set after"
proof -
  define bn where "bn = server_files_by_name server_files"
  let ?f = "\<lambda>item. [Checking (fst item), verdict bn item]"
  from assms(1) have "item \<in> set (sort hard_drive_files)" by simp
  then obtain xs ys where split: "sort hard_drive_files = xs @ item # ys"
    by (meson split_list)
  from assms(2) have "distinct (map fst (sort hard_drive_files))"
    by (simp add: distinct_map_fst_sort)
  then have nx: "fst item \<notin> fst ` set xs" and ny: "fst item \<notin> fst ` set ys"
    unfolding split by auto
  have "printed (compare_files hard_drive_files server_files) =
          printed init_state @ concat (map ?f (sort hard_drive_files))"
    by (simp only: compare_files_def printed_loop bn_def)
  then have "printed (compare_files hard_drive_files server_files) =
          concat (map ?f xs) @ [Checking (fst item), verdict bn item] @ concat (map ?f ys)"
    by (simp add: init_state_def split)
  moreover have "Checking (fst item) \<notin> set (concat (map ?f xs))"
    using nx Checking_in_loop_lines by blast
  moreover have "Checking (fst item) \<notin> set (concat (map ?f ys))"
    using ny Checking_in_loop_lines by blast
  ultimately show ?thesis
    unfolding bn_def by blast
qed

text \<open>
  Claim C2. A hard drive file whose basename has a server entry of exactly its size
  is reported \<open>IDENTICAL\<close>: the line after its one \<open>Checking\<close> line is
  \<open>Identical\<close> with the path of the one size-equal entry, or
  \<open>IdenticalMulti\<close> with the paths of all size-equal entries and of no other.
\<close>

theorem size_match_is_identical:
  assumes "(file_path, hard_drive_size) \<in> set hard_drive_files"
      and "distinct (map fst hard_drive_files)"
      and "size_matches server_files (basename file_path) hard_drive_size \<noteq> []"
  shows "\<exists>before after.
           printed (compare_files hard_drive_files server_files) =
             before @
             [Checking file_path,
              if length (size_matches server_files (basename file_path) hard_drive_size) = 1
              then Identical (basename file_path)
                     (fst (size_matches server_files (basename file_path) hard_drive_size ! 0)) hard_drive_size
              else IdenticalMulti (basename file_path)
                     (map fst (size_matches server_files (basename file_path) hard_drive_size)) hard_drive_size]
             @ after \<and>
           Checking file_path \<notin> set before \<and> Checking file_path \<notin> set after"
proof -
  from assms(3) have "same_name server_files (basename file_path) \<noteq> []"
    by (auto simp: size_matches_def)
  with assms(3) have "verdict (server_files_by_name server_files) (file_path, hard_drive_size) =
     (if length (size_matches server_files (basename file_path) hard_drive_size) = 1
      then Identical (basename file_path)
             (fst (size_matches server_files (basename file_path) hard_drive_size ! 0)) hard_drive_size
      else IdenticalMulti (basename file_path)
             (map fst (size_matches server_files (basename file_path) hard_drive_size)) hard_drive_size)"
    by (simp add: verdict_by_name)
  with printed_split [OF assms(1,2), of server_files] show ?thesis
    by simp
qed

theorem size_match_is_identical_witness:
  "(''a.txt'', 1) \<in> set demo_hard_drive \<and>
   distinct (map fst demo_hard_drive) \<and>
   size_matches demo_server (basename ''a.txt'') 1 =
     [(''sub/a.txt'', 1), (''y/a.txt'', 1)] \<and>
   (\<exists>before after.
      printed (compare_files demo_hard_drive demo_server) =
        before @
        [Checking ''a.txt'',
         if length (size_matches demo_server (basename ''a.txt'') 1) = 1
         then Identical (basename ''a.txt'')
                (fst (size_matches demo_server (basename ''a.txt'') 1 ! 0)) 1
         else IdenticalMulti (basename ''a.txt'')
                (map fst (size_matches demo_server (basename ''a.txt'') 1)) 1]
        @ after \<and>
      Checking ''a.txt'' \<notin> set before \<and> Checking ''a.txt'' \<notin> set after)"
proof -
  have a: "(''a.txt'', 1) \<in> set demo_hard_drive"
    by (simp add: demo_hard_drive_def)
  have b: "distinct (map fst demo_hard_drive)"
    by (simp add: demo_hard_drive_def)
  have c: "size_matches demo_server (basename ''a.txt'') 1 =
             [(''sub/a.txt'', 1), (''y/a.txt'', 1)]"
    by code_simp
  then have d: "size_matches demo_server (basename ''a.txt'') 1 \<noteq> []"
    by simp
  from a b c size_match_is_identical [OF a b d] show ?thesis
    by blast
qed

lemma missing_file_details_check_file:
  "missing_file_details (check_file bn st item) =
     missing_file_details st @ (if is_missing (verdict bn item) then [item] else [])"
  by (simp add: check_file_def verdict_def Let_def split: option.splits)

lemma mismatch_file_details_check_file:
  "mismatch_file_details (check_file bn st item) =
     mismatch_file_details st @
     (if is_size_diff (verdict bn item)
      then [(fst item, snd item, case bn (basename (fst item)) of None \<Rightarrow> [] | Some l \<Rightarrow> l)]
      else [])"
  by (simp add: check_file_def verdict_def Let_def split: option.splits)

lemma missing_file_details_loop:
  "missing_file_details (foldl (check_file bn) st xs) =
     missing_file_details st @ filter (\<lambda>item. is_missing (verdict bn item)) xs"
  by (induction xs arbitrary: st) (simp_all add: missing_file_details_check_file)

lemma mismatch_file_details_loop:
  "mismatch_file_details (foldl (check_file bn) st xs) =
     mismatch_file_details st @
     map (\<lambda>item. (fst item, snd item,
                  case bn (basename (fst item)) of None \<Rightarrow> [] | Some l \<Rightarrow> l))
       (filter (\<lambda>item. is_size_diff (verdict bn item)) xs)"
  by (induction xs arbitrary: st) (simp_all add: mismatch_file_details_check_file)

lemma is_missing_verdict:
  "is_missing (verdict (server_files_by_name sf) item) =
     (same_name sf (basename (fst item)) = [])"
  by (simp add: verdict_by_name)

lemma is_size_diff_verdict:
  "is_size_diff (verdict (server_files_by_name sf) item) =
     (same_name sf (basename (fst item)) \<noteq> [] \<and>
      size_matches sf (basename (fst item)) (snd item) = [])"
  by (simp add: verdict_by_name)

lemma missing_file_details_compare:
  "missing_file_details (compare_files hdf sf) =
     filter (\<lambda>item. same_name sf (basename (fst item)) = []) (sort hdf)"
  by (simp add: compare_files_def missing_file_details_loop init_state_def
      is_missing_verdict)

lemma mismatch_file_details_compare:
  "mismatch_file_details (compare_files hdf sf) =
     map (\<lambda>item. (fst item, snd item, same_name sf (basename (fst item))))
       (filter (\<lambda>item. same_name sf (basename (fst item)) \<noteq> [] \<and>
                       size_matches sf (basename (fst item)) (snd item) = [])
          (sort hdf))"
proof -
  have "mismatch_file_details (compare_files hdf sf) =
     map (\<lambda>item. (fst item, snd item,
                  case server_files_by_name sf (basename (fst item)) of
                    None \<Rightarrow> [] | Some l \<Rightarrow> l))
       (filter (\<lambda>item. is_size_diff (verdict (server_files_by_name sf) item)) (sort hdf))"
    by (simp only: compare_files_def mismatch_file_details_loop init_state_def
        cmp_state.simps append_Nil)
  also have "\<dots> =
     map (\<lambda>item. (fst item, snd item, same_name sf (basename (fst item))))
       (filter (\<lambda>item. same_name sf (basename (fst item)) \<noteq> [] \<and>
                       size_matches sf (basename (fst item)) (snd item) = [])
          (sort hdf))"
    by (simp add: is_size_diff_verdict server_files_by_name_eq cong: map_cong)
  finally show ?thesis .
qed

lemma missing_files_compare:
  "missing_files (compare_files hdf sf) = length (missing_file_details (compare_files hdf sf))"
  by (simp add: compare_files_def missing_files_loop missing_file_details_loop
      init_state_def filter_map o_def)

lemma size_mismatch_files_compare:
  "size_mismatch_files (compare_files hdf sf) =
     length (mismatch_file_details (compare_files hdf sf))"
  by (simp add: compare_files_def size_mismatch_files_loop mismatch_file_details_loop
      init_state_def filter_map o_def)

lemma checking_paths_loop:
  "checking_paths (concat (map (\<lambda>item. [Checking (fst item), verdict bn item]) xs)) =
     map fst xs"
proof (induction xs)
  case Nil
  then show ?case by (simp add: checking_paths_def)
next
  case (Cons x xs)
  have "(case verdict bn x of Checking p \<Rightarrow> [p] | _ \<Rightarrow> []) = []"
    using verdict_not_Checking [of _ bn x] by (cases "verdict bn x") auto
  with Cons show ?case by (simp add: checking_paths_def)
qed

lemma sorted_map_fst_filter_sort:
  fixes xs :: "(string \<times> nat) list"
  shows "sorted (map fst (filter P (sort xs)))"
proof -
  have "sorted_wrt (\<lambda>x y. fst x \<le> fst y) (sort xs)"
    using sorted_map_fst_sort [of xs] by (simp add: sorted_map)
  then have "sorted_wrt (\<lambda>x y. fst x \<le> fst y) (filter P (sort xs))"
    by (rule sorted_wrt_filter)
  then show ?thesis by (simp add: sorted_map)
qed

lemma missing_detail_paths_simps:
  "missing_detail_paths [] = []"
  "missing_detail_paths (l # ls) =
     (case l of MissingDetail p _ \<Rightarrow> [p] | _ \<Rightarrow> []) @ missing_detail_paths ls"
  "missing_detail_paths (xs @ ys) = missing_detail_paths xs @ missing_detail_paths ys"
  by (simp_all add: missing_detail_paths_def)

lemma size_diff_detail_paths_simps:
  "size_diff_detail_paths [] = []"
  "size_diff_detail_paths (l # ls) =
     (case l of SizeDiffDetail p _ _ \<Rightarrow> [p] | _ \<Rightarrow> []) @ size_diff_detail_paths ls"
  "size_diff_detail_paths (xs @ ys) = size_diff_detail_paths xs @ size_diff_detail_paths ys"
  by (simp_all add: size_diff_detail_paths_def)

lemma missing_paths_of_missing:
  "missing_detail_paths (map (\<lambda>(p, s). MissingDetail p s) ms) = map fst ms"
  by (induction ms) (auto simp: missing_detail_paths_simps)

lemma size_diff_paths_of_missing:
  "size_diff_detail_paths (map (\<lambda>(p, s). MissingDetail p s) ms) = []"
  by (induction ms) (auto simp: size_diff_detail_paths_simps)

lemma missing_paths_of_size_diff:
  "missing_detail_paths (map (\<lambda>(p, s, c). SizeDiffDetail p s c) ds) = []"
  by (induction ds) (auto simp: missing_detail_paths_simps)

lemma size_diff_paths_of_size_diff:
  "size_diff_detail_paths (map (\<lambda>(p, s, c). SizeDiffDetail p s c) ds) = map fst ds"
  by (induction ds) (auto simp: size_diff_detail_paths_simps)

lemmas detail_paths_of_details =
  missing_paths_of_missing size_diff_paths_of_missing
  missing_paths_of_size_diff size_diff_paths_of_size_diff

lemma filter_fst_distinct:
  "distinct (map fst xs) \<Longrightarrow> (k, v) \<in> set xs \<Longrightarrow> filter (\<lambda>item. fst item = k) xs = [(k, v)]"
proof (induction xs)
  case Nil
  then show ?case by simp
next
  case (Cons x xs)
  show ?case
  proof (cases "x = (k, v)")
    case True
    with Cons.prems(1) have "k \<notin> fst ` set xs" by auto
    then have "filter (\<lambda>item. fst item = k) xs = []"
      by (auto simp: filter_empty_conv)
    with True show ?thesis by simp
  next
    case False
    with Cons.prems have in_xs: "(k, v) \<in> set xs" and "fst x \<notin> fst ` set xs"
      by auto
    then have "fst x \<noteq> k" by (metis fst_conv image_eqI)
    with Cons.IH Cons.prems(1) in_xs show ?thesis by simp
  qed
qed

lemma missing_detail_paths_summary:
  "missing_detail_paths (summary hdf sf (compare_files hdf sf)) =
     map fst (missing_file_details (compare_files hdf sf))"
  by (simp add: summary_def missing_detail_paths_simps detail_paths_of_details
      missing_files_compare)

lemma size_diff_detail_paths_summary:
  "size_diff_detail_paths (summary hdf sf (compare_files hdf sf)) =
     map fst (mismatch_file_details (compare_files hdf sf))"
  by (simp add: summary_def size_diff_detail_paths_simps detail_paths_of_details
      size_mismatch_files_compare)

text \<open>
  Claim C4. The loop checks the hard drive files in ascending order of their
  relative paths: the \<open>Checking\<close> lines are the paths of the sorted items. The
  missing and the size mismatch details are the sorted items of that outcome, in
  that order, and the summary lists them in that order.
\<close>

theorem classified_in_sorted_order:
  "checking_paths (printed (compare_files hard_drive_files server_files)) =
     map fst (sort hard_drive_files) \<and>
   sorted (checking_paths (printed (compare_files hard_drive_files server_files))) \<and>
   missing_file_details (compare_files hard_drive_files server_files) =
     filter (\<lambda>item. same_name server_files (basename (fst item)) = [])
       (sort hard_drive_files) \<and>
   map (\<lambda>(file_path, hard_drive_size, instances). (file_path, hard_drive_size))
       (mismatch_file_details (compare_files hard_drive_files server_files)) =
     filter (\<lambda>item. same_name server_files (basename (fst item)) \<noteq> [] \<and>
                     size_matches server_files (basename (fst item)) (snd item) = [])
       (sort hard_drive_files) \<and>
   missing_detail_paths
       (summary hard_drive_files server_files
          (compare_files hard_drive_files server_files)) =
     map fst (missing_file_details (compare_files hard_drive_files server_files)) \<and>
   size_diff_detail_paths
       (summary hard_drive_files server_files
          (compare_files hard_drive_files server_files)) =
     map fst (mismatch_file_details (compare_files hard_drive_files server_files)) \<and>
   sorted (map fst (missing_file_details (compare_files hard_drive_files server_files))) \<and>
   sorted (map fst (mismatch_file_details (compare_files hard_drive_files server_files)))"
proof -
  have c: "checking_paths (printed (compare_files hard_drive_files server_files)) =
     map fst (sort hard_drive_files)"
    by (simp add: compare_files_def printed_loop init_state_def checking_paths_loop)
  have m: "sorted (map fst (missing_file_details (compare_files hard_drive_files server_files)))"
    by (simp only: missing_file_details_compare sorted_map_fst_filter_sort)
  have "map fst (mismatch_file_details (compare_files hard_drive_files server_files)) =
     map fst (filter (\<lambda>item. same_name server_files (basename (fst item)) \<noteq> [] \<and>
                     size_matches server_files (basename (fst item)) (snd item) = [])
       (sort hard_drive_files))"
    by (simp add: mismatch_file_details_compare o_def)
  then have d: "sorted (map fst (mismatch_file_details (compare_files hard_drive_files server_files)))"
    by (simp only: sorted_map_fst_filter_sort)
  have e: "map (\<lambda>(file_path, hard_drive_size, instances). (file_path, hard_drive_size))
       (mismatch_file_details (compare_files hard_drive_files server_files)) =
     filter (\<lambda>item. same_name server_files (basename (fst item)) \<noteq> [] \<and>
                     size_matches server_files (basename (fst item)) (snd item) = [])
       (sort hard_drive_files)"
    by (simp add: mismatch_file_details_compare o_def)
  show ?thesis
    using c m d e sorted_map_fst_sort [of hard_drive_files]
      missing_file_details_compare [of hard_drive_files server_files]
      missing_detail_paths_summary [of hard_drive_files server_files]
      size_diff_detail_paths_summary [of hard_drive_files server_files]
    by simp
qed

theorem classified_in_sorted_order_witness:
  "checking_paths (printed (compare_files demo_hard_drive demo_server)) =
     [''a.txt'', ''b.txt'', ''c/d.txt''] \<and>
   sorted (checking_paths (printed (compare_files demo_hard_drive demo_server))) \<and>
   sorted (map fst (missing_file_details (compare_files demo_hard_drive demo_server))) \<and>
   sorted (map fst (mismatch_file_details (compare_files demo_hard_drive demo_server)))"
proof -
  note t = classified_in_sorted_order [of demo_hard_drive demo_server]
  have e: "map fst (sort demo_hard_drive) = [''a.txt'', ''b.txt'', ''c/d.txt'']"
    by code_simp
  from t have "checking_paths (printed (compare_files demo_hard_drive demo_server)) =
                 map fst (sort demo_hard_drive)"
    by (rule conjunct1)
  with e have a: "checking_paths (printed (compare_files demo_hard_drive demo_server)) =
                 [''a.txt'', ''b.txt'', ''c/d.txt'']"
    by (simp only:)
  from t have b: "sorted (checking_paths (printed (compare_files demo_hard_drive demo_server)))"
    by blast
  from t have c: "sorted (map fst (missing_file_details
                    (compare_files demo_hard_drive demo_server)))"
    by blast
  from t have d: "sorted (map fst (mismatch_file_details
                    (compare_files demo_hard_drive demo_server)))"
    by blast
  from a b c d show ?thesis by blast
qed

text \<open>
  Claim C3. A hard drive file whose basename occurs on the server, but never with
  its size, is reported \<open>SIZE_DIFF\<close>: the line after its one \<open>Checking\<close> line
  is \<open>SizeDiff\<close> with every server entry of that basename, whatever its size;
  the one mismatch detail recorded for the file holds that same list, and the
  summary prints it.
\<close>

theorem size_mismatch_lists_all:
  assumes "(file_path, hard_drive_size) \<in> set hard_drive_files"
      and "distinct (map fst hard_drive_files)"
      and "same_name server_files (basename file_path) \<noteq> []"
      and "size_matches server_files (basename file_path) hard_drive_size = []"
  shows "(\<exists>before after.
            printed (compare_files hard_drive_files server_files) =
              before @
              [Checking file_path,
               SizeDiff (basename file_path) hard_drive_size
                 (same_name server_files (basename file_path))]
              @ after \<and>
            Checking file_path \<notin> set before \<and> Checking file_path \<notin> set after) \<and>
         filter (\<lambda>d. fst d = file_path)
           (mismatch_file_details (compare_files hard_drive_files server_files)) =
           [(file_path, hard_drive_size, same_name server_files (basename file_path))] \<and>
         SizeDiffDetail file_path hard_drive_size
           (same_name server_files (basename file_path))
           \<in> set (summary hard_drive_files server_files
                    (compare_files hard_drive_files server_files))"
proof -
  let ?st = "compare_files hard_drive_files server_files"
  let ?c = "same_name server_files (basename file_path)"
  let ?Q = "\<lambda>item. same_name server_files (basename (fst item)) \<noteq> [] \<and>
                  size_matches server_files (basename (fst item)) (snd item) = []"
  have v: "verdict (server_files_by_name server_files) (file_path, hard_drive_size) =
             SizeDiff (basename file_path) hard_drive_size ?c"
    using assms(3,4) by (simp add: verdict_by_name)
  have p: "\<exists>before after.
            printed ?st = before @ [Checking file_path, SizeDiff (basename file_path)
               hard_drive_size ?c] @ after \<and>
            Checking file_path \<notin> set before \<and> Checking file_path \<notin> set after"
    using printed_split [OF assms(1,2), of server_files] v by simp
  have dist: "distinct (map fst (sort hard_drive_files))"
    using assms(2) by (simp add: distinct_map_fst_sort)
  have mem: "(file_path, hard_drive_size) \<in> set (sort hard_drive_files)"
    using assms(1) by simp
  have only: "filter (\<lambda>item. fst item = file_path) (sort hard_drive_files) =
                [(file_path, hard_drive_size)]"
    using dist mem by (rule filter_fst_distinct)
  have "filter (\<lambda>d. fst d = file_path) (mismatch_file_details ?st) =
          map (\<lambda>item. (fst item, snd item, same_name server_files (basename (fst item))))
            (filter ?Q (filter (\<lambda>item. fst item = file_path) (sort hard_drive_files)))"
    by (simp add: mismatch_file_details_compare filter_map o_def conj_commute)
  also have "\<dots> = [(file_path, hard_drive_size, ?c)]"
    unfolding only using assms(3,4) by simp
  finally have f: "filter (\<lambda>d. fst d = file_path) (mismatch_file_details ?st) =
                     [(file_path, hard_drive_size, ?c)]" .
  then have "(file_path, hard_drive_size, ?c) \<in>
               set (filter (\<lambda>d. fst d = file_path) (mismatch_file_details ?st))"
    by simp
  then have m: "(file_path, hard_drive_size, ?c) \<in> set (mismatch_file_details ?st)"
    by simp
  then have "0 < size_mismatch_files ?st"
    by (simp only: size_mismatch_files_compare length_greater_0_conv) auto
  with m have s: "SizeDiffDetail file_path hard_drive_size ?c \<in>
                    set (summary hard_drive_files server_files ?st)"
    by (force simp: summary_def)
  from p f s show ?thesis by simp
qed

theorem size_mismatch_lists_all_witness:
  "(''c/d.txt'', 7) \<in> set demo_hard_drive \<and>
   distinct (map fst demo_hard_drive) \<and>
   same_name demo_server (basename ''c/d.txt'') = [(''x/d.txt'', 5), (''d.txt'', 6)] \<and>
   size_matches demo_server (basename ''c/d.txt'') 7 = [] \<and>
   filter (\<lambda>d. fst d = ''c/d.txt'')
     (mismatch_file_details (compare_files demo_hard_drive demo_server)) =
     [(''c/d.txt'', 7, same_name demo_server (basename ''c/d.txt''))] \<and>
   SizeDiffDetail ''c/d.txt'' 7 (same_name demo_server (basename ''c/d.txt''))
     \<in> set (summary demo_hard_drive demo_server
              (compare_files demo_hard_drive demo_server))"
proof -
  have a: "(''c/d.txt'', 7) \<in> set demo_hard_drive"
    by (simp add: demo_hard_drive_def)
  have b: "distinct (map fst demo_hard_drive)"
    by (simp add: demo_hard_drive_def)
  have c: "same_name demo_server (basename ''c/d.txt'') = [(''x/d.txt'', 5), (''d.txt'', 6)]"
    by code_simp
  then have c': "same_name demo_server (basename ''c/d.txt'') \<noteq> []"
    by simp
  have d: "size_matches demo_server (basename ''c/d.txt'') 7 = []"
    by code_simp
  from a b c d size_mismatch_lists_all [OF a b c' d] show ?thesis
    by blast
qed

section \<open>Properties of the script body\<close>

lemmas err_defs = err_hard_drive_missing_def err_server_missing_def err_both_missing_def
  err_hard_drive_not_dir_def err_server_not_dir_def err_both_not_dirs_def

lemma messages_distinct:
  "distinct [err_hard_drive_missing p, err_server_missing q,
             err_hard_drive_not_dir p', err_server_not_dir q']"
proof -
  have a: "err_hard_drive_missing p \<noteq> err_hard_drive_not_dir p'"
  proof
    assume "err_hard_drive_missing p = err_hard_drive_not_dir p'"
    then have "rev (err_hard_drive_missing p) = rev (err_hard_drive_not_dir p')"
      by simp
    then show False by (simp add: err_defs)
  qed
  have b: "err_server_missing q \<noteq> err_server_not_dir q'"
  proof
    assume "err_server_missing q = err_server_not_dir q'"
    then have "rev (err_server_missing q) = rev (err_server_not_dir q')"
      by simp
    then show False by (simp add: err_defs)
  qed
  have c: "err_hard_drive_missing p \<noteq> err_server_missing q"
          "err_hard_drive_missing p \<noteq> err_server_not_dir q'"
          "err_server_missing q \<noteq> err_hard_drive_not_dir p'"
          "err_hard_drive_not_dir p' \<noteq> err_server_not_dir q'"
    by (simp_all add: err_defs)
  from a b c show ?thesis by simp
qed


text \<open>
  Claim C5. A run whose comparison completes ends with status 0 and prints what
  \<open>compare_directories\<close> printed, whatever the counts; a run whose comparison
  raises (a permission error that left the indexer, an interrupt, any other
  exception) ends with status 1. A path that does not exist or is not a directory
  ends the run with status 1 and one line, the message naming that path, before
  anything is scanned; the four messages differ from each other for all paths.
\<close>

theorem exit_status:
  "(os_path_exists fs hard_drive_path \<and> os_path_exists fs server_path \<and>
    os_path_isdir fs hard_drive_path \<and> os_path_isdir fs server_path \<longrightarrow>
      (case snd (compare_directories fs verbose hard_drive_path server_path) of
         Inr _ \<Rightarrow>
           main fs verbose hard_drive_path server_path =
             (fst (compare_directories fs verbose hard_drive_path server_path), 0)
       | Inl e \<Rightarrow> snd (main fs verbose hard_drive_path server_path) = 1)) \<and>
   (\<not> os_path_exists fs hard_drive_path \<longrightarrow>
      main fs verbose hard_drive_path server_path =
        ([Print (err_hard_drive_missing hard_drive_path)], 1)) \<and>
   (os_path_exists fs hard_drive_path \<and> \<not> os_path_exists fs server_path \<longrightarrow>
      main fs verbose hard_drive_path server_path =
        ([Print (err_server_missing server_path)], 1)) \<and>
   (os_path_exists fs hard_drive_path \<and> os_path_exists fs server_path \<and>
    \<not> os_path_isdir fs hard_drive_path \<longrightarrow>
      main fs verbose hard_drive_path server_path =
        ([Print (err_hard_drive_not_dir hard_drive_path)], 1)) \<and>
   (os_path_exists fs hard_drive_path \<and> os_path_exists fs server_path \<and>
    os_path_isdir fs hard_drive_path \<and> \<not> os_path_isdir fs server_path \<longrightarrow>
      main fs verbose hard_drive_path server_path =
        ([Print (err_server_not_dir server_path)], 1)) \<and>
   distinct [err_hard_drive_missing p, err_server_missing q,
             err_hard_drive_not_dir p', err_server_not_dir q']"
proof -
  have run: "os_path_exists fs hard_drive_path \<and> os_path_exists fs server_path \<and>
    os_path_isdir fs hard_drive_path \<and> os_path_isdir fs server_path \<longrightarrow>
      (case snd (compare_directories fs verbose hard_drive_path server_path) of
         Inr _ \<Rightarrow>
           main fs verbose hard_drive_path server_path =
             (fst (compare_directories fs verbose hard_drive_path server_path), 0)
       | Inl e \<Rightarrow> snd (main fs verbose hard_drive_path server_path) = 1)"
    by (cases "compare_directories fs verbose hard_drive_path server_path")
       (auto simp: main_def split: sum.splits exn.splits)
  have bad: "\<not> os_path_exists fs hard_drive_path \<longrightarrow>
      main fs verbose hard_drive_path server_path =
        ([Print (err_hard_drive_missing hard_drive_path)], 1)"
    "os_path_exists fs hard_drive_path \<and> \<not> os_path_exists fs server_path \<longrightarrow>
      main fs verbose hard_drive_path server_path =
        ([Print (err_server_missing server_path)], 1)"
    "os_path_exists fs hard_drive_path \<and> os_path_exists fs server_path \<and>
    \<not> os_path_isdir fs hard_drive_path \<longrightarrow>
      main fs verbose hard_drive_path server_path =
        ([Print (err_hard_drive_not_dir hard_drive_path)], 1)"
    "os_path_exists fs hard_drive_path \<and> os_path_exists fs server_path \<and>
    os_path_isdir fs hard_drive_path \<and> \<not> os_path_isdir fs server_path \<longrightarrow>
      main fs verbose hard_drive_path server_path =
        ([Print (err_server_not_dir server_path)], 1)"
    by (simp_all add: main_def)
  from run bad messages_distinct [of p q p' q'] show ?thesis
    by blast
qed

theorem exit_status_witness:
  "main demo_fs False ''/hd'' ''/srv'' =
     (fst (compare_directories demo_fs False ''/hd'' ''/srv''), 0) \<and>
   snd (main demo_fs False ''/locked'' ''/srv'') = 1 \<and>
   snd (main demo_fs False ''/hd'' ''/busy'') = 1 \<and>
   main demo_fs False ''/nowhere'' ''/srv'' =
     ([Print (err_hard_drive_missing ''/nowhere'')], 1) \<and>
   main demo_fs False ''/hd'' ''/nowhere'' =
     ([Print (err_server_missing ''/nowhere'')], 1) \<and>
   main demo_fs False ''/note.txt'' ''/srv'' =
     ([Print (err_hard_drive_not_dir ''/note.txt'')], 1) \<and>
   main demo_fs False ''/hd'' ''/note.txt'' =
     ([Print (err_server_not_dir ''/note.txt'')], 1)"
proof -
  have ex: "os_path_exists demo_fs ''/hd''" "os_path_exists demo_fs ''/srv''"
    "os_path_exists demo_fs ''/locked''" "os_path_exists demo_fs ''/busy''"
    "os_path_exists demo_fs ''/note.txt''" "\<not> os_path_exists demo_fs ''/nowhere''"
    by (simp_all add: demo_fs_def)
  have dir: "os_path_isdir demo_fs ''/hd''" "os_path_isdir demo_fs ''/srv''"
    "os_path_isdir demo_fs ''/locked''" "os_path_isdir demo_fs ''/busy''"
    "\<not> os_path_isdir demo_fs ''/note.txt''"
    by (simp_all add: demo_fs_def)
  have ok: "snd (compare_directories demo_fs False ''/hd'' ''/srv'') = Inr ()"
    by code_simp
  have denied: "snd (compare_directories demo_fs False ''/locked'' ''/srv'') =
                  Inl (PermissionError ''Permission denied'')"
    by code_simp
  have stopped: "snd (compare_directories demo_fs False ''/hd'' ''/busy'') =
                   Inl KeyboardInterrupt"
    by code_simp
  have 1: "main demo_fs False ''/hd'' ''/srv'' =
             (fst (compare_directories demo_fs False ''/hd'' ''/srv''), 0)"
    using exit_status [of demo_fs "''/hd''" "''/srv''" False] ex dir ok by simp
  have 2: "snd (main demo_fs False ''/locked'' ''/srv'') = 1"
    using exit_status [of demo_fs "''/locked''" "''/srv''" False] ex dir denied by simp
  have 3: "snd (main demo_fs False ''/hd'' ''/busy'') = 1"
    using exit_status [of demo_fs "''/hd''" "''/busy''" False] ex dir stopped by simp
  have 4: "main demo_fs False ''/nowhere'' ''/srv'' =
             ([Print (err_hard_drive_missing ''/nowhere'')], 1)"
    using exit_status [of demo_fs "''/nowhere''" "''/srv''" False] ex by blast
  have 5: "main demo_fs False ''/hd'' ''/nowhere'' =
             ([Print (err_server_missing ''/nowhere'')], 1)"
    using exit_status [of demo_fs "''/hd''" "''/nowhere''" False] ex by blast
  have 6: "main demo_fs False ''/note.txt'' ''/srv'' =
             ([Print (err_hard_drive_not_dir ''/note.txt'')], 1)"
    using exit_status [of demo_fs "''/note.txt''" "''/srv''" False] ex dir by blast
  have 7: "main demo_fs False ''/hd'' ''/note.txt'' =
             ([Print (err_server_not_dir ''/note.txt'')], 1)"
    using exit_status [of demo_fs "''/hd''" "''/note.txt''" False] ex dir by blast
  from 1 2 3 4 5 6 7 show ?thesis by blast
qed


lemmas combined_defs = combined_error_def err_both_missing_def err_both_not_dirs_def

lemma count_files_plain:
  "\<forall>l\<in>set out. \<not> combined_error l \<Longrightarrow>
     \<forall>l\<in>set (fst (count_files listing n out)). \<not> combined_error l"
proof (induction listing arbitrary: n out)
  case Nil
  then show ?case by simp
next
  case (Cons item rest)
  show ?case
  proof (cases "probe item")
    case (Inl e)
    with Cons.prems show ?thesis by simp
  next
    case (Inr nd)
    show ?thesis
    proof (cases "is_file nd")
      case True
      have "\<forall>l\<in>set (if Suc n mod 100 = 0 \<or> Suc n < 100
                       then out @ [DiscoveringFiles (Suc n)] else out). \<not> combined_error l"
        using Cons.prems by (simp add: combined_error_def)
      from Cons.IH [OF this] Inr True show ?thesis by (simp add: Let_def)
    next
      case False
      with Inr Cons.IH [OF Cons.prems] show ?thesis by simp
    qed
  qed
qed

lemma scan_entry_plain:
  "\<forall>l\<in>set (scan_printed st). \<not> combined_error l \<Longrightarrow>
     \<forall>l\<in>set (scan_printed (fst (scan_entry verbose n st item))). \<not> combined_error l"
  by (auto simp: scan_entry_def Let_def update_progress_bar_def combined_error_def
      split: sum.splits if_splits)

lemma scan_entries_plain:
  "\<forall>l\<in>set (scan_printed st). \<not> combined_error l \<Longrightarrow>
     \<forall>l\<in>set (scan_printed (fst (scan_entries verbose n listing st))). \<not> combined_error l"
proof (induction listing arbitrary: st)
  case Nil
  then show ?case by simp
next
  case (Cons item rest)
  obtain st1 r where s: "scan_entry verbose n st item = (st1, r)"
    by (cases "scan_entry verbose n st item")
  from scan_entry_plain [OF Cons.prems, of verbose n item] s
  have p: "\<forall>l\<in>set (scan_printed st1). \<not> combined_error l" by simp
  show ?case
  proof (cases r)
    case None
    with s Cons.IH [OF p] show ?thesis by simp
  next
    case (Some e)
    with s p show ?thesis by simp
  qed
qed

lemma get_all_files_recursive_plain:
  "\<forall>l\<in>set (fst (get_all_files_recursive fs verbose d)). \<not> combined_error l"
proof -
  let ?out0 = "[ScanningDirectory d, Print ''Counting files for progress tracking...'']"
  have o0: "\<forall>l\<in>set ?out0. \<not> combined_error l"
    by (simp add: combined_defs)
  obtain out r where c: "count_files (rglob fs d) 0 ?out0 = (out, r)"
    by (cases "count_files (rglob fs d) 0 ?out0")
  from count_files_plain [OF o0, of "rglob fs d" 0] c
  have o1: "\<forall>l\<in>set out. \<not> combined_error l" by simp
  show ?thesis
  proof (cases r)
    case (Inl e)
    with c o1 show ?thesis by (simp add: get_all_files_recursive_def)
  next
    case (Inr total_files)
    let ?st0 = "\<lparr>files_info = [], directories_processed = [], processed_files = 0,
                 scan_printed = out @ [FoundTotal total_files]\<rparr>"
    have "\<forall>l\<in>set (scan_printed ?st0). \<not> combined_error l"
      using o1 by (simp add: combined_error_def)
    from scan_entries_plain [OF this, of verbose total_files "rglob fs d"]
    have o2: "\<forall>l\<in>set (scan_printed (fst (scan_entries verbose total_files (rglob fs d) ?st0))).
                \<not> combined_error l" .
    obtain st e where s: "scan_entries verbose total_files (rglob fs d) ?st0 = (st, e)"
      by (cases "scan_entries verbose total_files (rglob fs d) ?st0")
    with o2 have o3: "\<forall>l\<in>set (scan_printed st). \<not> combined_error l" by simp
    have sub: "\<forall>l\<in>set (subdir_report st). \<not> combined_error l"
      by (auto simp: subdir_report_def combined_defs)
    show ?thesis
      using c Inr s o3 sub
      by (cases e) (auto simp: get_all_files_recursive_def combined_defs)
  qed
qed


lemma compare_files_plain:
  "\<forall>l\<in>set (printed (compare_files hdf sf)). \<not> combined_error l"
proof -
  have "\<not> combined_error (verdict bn item)" for bn item
    using is_outcome_verdict [of bn item]
    by (cases "verdict bn item") (auto simp: combined_error_def is_outcome_def)
  then show ?thesis
    by (auto simp: compare_files_def printed_loop init_state_def combined_error_def)
qed


lemma summary_plain:
  "\<forall>l\<in>set (summary hdf sf st). \<not> combined_error l"
  by (auto simp: summary_def combined_defs)


lemma replicate_neq_Cons: "c \<noteq> x \<Longrightarrow> replicate n c \<noteq> x # t"
  by (cases n) auto

lemma compare_directories_plain:
  "\<forall>l\<in>set (fst (compare_directories fs verbose h s)). \<not> combined_error l"
proof -
  obtain out1 r1 where g1: "get_all_files_recursive fs verbose h = (out1, r1)"
    by (cases "get_all_files_recursive fs verbose h")
  obtain out3 r3 where g3: "get_all_files_recursive fs verbose s = (out3, r3)"
    by (cases "get_all_files_recursive fs verbose s")
  from get_all_files_recursive_plain [of fs verbose h] g1
  have p1: "\<forall>l\<in>set out1. \<not> combined_error l" by simp
  from get_all_files_recursive_plain [of fs verbose s] g3
  have p3: "\<forall>l\<in>set out3. \<not> combined_error l" by simp
  have heads: "\<not> combined_error (Print (CHR 0x0A # ''Comparing files between:''))"
    "\<not> combined_error (HardDriveHeader h)"
    "\<not> combined_error (ServerHeader s)"
    "\<not> combined_error (Print (replicate 80 (CHR ''='')))"
    "\<not> combined_error (Print (CHR 0x0A # ''1. SCANNING HARD DRIVE:''))"
    "\<not> combined_error (Print (replicate 80 (CHR ''-'')))"
    "\<not> combined_error (Print (CHR 0x0A # ''2. SCANNING SERVER DIRECTORY:''))"
    "\<not> combined_error (Print (CHR 0x0A # ''3. COMPARING FILES:''))"
    by (simp_all add: combined_defs replicate_neq_Cons)
  show ?thesis
  proof (cases r1)
    case (Inl e)
    with g1 p1 heads show ?thesis
      by (simp add: compare_directories_def)
  next
    case r1: (Inr hdf)
    show ?thesis
    proof (cases r3)
      case (Inl e)
      with g1 g3 r1 p1 p3 heads show ?thesis
        by (simp add: compare_directories_def ball_Un)
    next
      case (Inr sf)
      with g1 g3 r1 p1 p3 heads compare_files_plain [of hdf sf]
        summary_plain [of hdf sf "compare_files hdf sf"]
      show ?thesis
        by (simp add: compare_directories_def Let_def ball_Un)
    qed
  qed
qed

lemma main_plain:
  "\<forall>l\<in>set (fst (main fs verbose h s)). \<not> combined_error l"
proof -
  have a: "\<not> combined_error (Print (err_hard_drive_missing p))"
          "\<not> combined_error (Print (err_server_missing p))"
          "\<not> combined_error (Print (err_hard_drive_not_dir p))"
          "\<not> combined_error (Print (err_server_not_dir p))"
          "\<not> combined_error (Print (''ERROR: Permission denied accessing files: '' @ m))"
          "\<not> combined_error (Print (CHR 0x0A # ''Operation cancelled by user.''))"
          "\<not> combined_error (Print (''ERROR: An unexpected error occurred: '' @ m))"
    for p m
    by (simp_all add: combined_defs err_defs)
  obtain out r where c: "compare_directories fs verbose h s = (out, r)"
    by (cases "compare_directories fs verbose h s")
  from compare_directories_plain [of fs verbose h s] c
  have p: "\<forall>l\<in>set out. \<not> combined_error l" by simp
  show ?thesis
  proof (cases "os_path_exists fs h \<and> os_path_exists fs s \<and>
                os_path_isdir fs h \<and> os_path_isdir fs s")
    case False
    with a show ?thesis by (auto simp: main_def)
  next
    case True
    show ?thesis
    proof (cases r)
      case (Inr u)
      with True c p show ?thesis by (simp add: main_def)
    next
      case (Inl e)
      with True c p a show ?thesis
        by (cases e) (simp_all add: main_def)
    qed
  qed
qed

text \<open>
  Claim C10. No run prints \<open>Both directory paths do not exist.\<close> or
  \<open>The paths entered are not directories.\<close>: when neither path exists, or both
  exist and neither is a directory, the one line printed is the hard drive path's
  message.
\<close>

theorem combined_errors_unreachable:
  "Print err_both_missing \<notin> set (fst (main fs verbose hard_drive_path server_path)) \<and>
   Print err_both_not_dirs \<notin> set (fst (main fs verbose hard_drive_path server_path)) \<and>
   (\<not> os_path_exists fs hard_drive_path \<and> \<not> os_path_exists fs server_path \<longrightarrow>
      main fs verbose hard_drive_path server_path =
        ([Print (err_hard_drive_missing hard_drive_path)], 1)) \<and>
   (os_path_exists fs hard_drive_path \<and> os_path_exists fs server_path \<and>
    \<not> os_path_isdir fs hard_drive_path \<and> \<not> os_path_isdir fs server_path \<longrightarrow>
      main fs verbose hard_drive_path server_path =
        ([Print (err_hard_drive_not_dir hard_drive_path)], 1))"
proof -
  have "\<not> combined_error l"
    if "l \<in> set (fst (main fs verbose hard_drive_path server_path))" for l
    using main_plain that by blast
  then have "Print err_both_missing \<notin> set (fst (main fs verbose hard_drive_path server_path))"
    and "Print err_both_not_dirs \<notin> set (fst (main fs verbose hard_drive_path server_path))"
    by (auto simp: combined_error_def)
  moreover have "\<not> os_path_exists fs hard_drive_path \<and> \<not> os_path_exists fs server_path \<longrightarrow>
      main fs verbose hard_drive_path server_path =
        ([Print (err_hard_drive_missing hard_drive_path)], 1)"
    by (simp add: main_def)
  moreover have "os_path_exists fs hard_drive_path \<and> os_path_exists fs server_path \<and>
    \<not> os_path_isdir fs hard_drive_path \<and> \<not> os_path_isdir fs server_path \<longrightarrow>
      main fs verbose hard_drive_path server_path =
        ([Print (err_hard_drive_not_dir hard_drive_path)], 1)"
    by (simp add: main_def)
  ultimately show ?thesis by blast
qed

theorem combined_errors_unreachable_witness:
  "\<not> os_path_exists demo_fs ''/nowhere'' \<and> \<not> os_path_exists demo_fs ''/gone'' \<and>
   main demo_fs False ''/nowhere'' ''/gone'' =
     ([Print (err_hard_drive_missing ''/nowhere'')], 1) \<and>
   os_path_exists demo_fs ''/note.txt'' \<and> \<not> os_path_isdir demo_fs ''/note.txt'' \<and>
   main demo_fs False ''/note.txt'' ''/note.txt'' =
     ([Print (err_hard_drive_not_dir ''/note.txt'')], 1) \<and>
   Print err_both_missing \<notin> set (fst (main demo_fs False ''/nowhere'' ''/gone'')) \<and>
   Print err_both_not_dirs \<notin> set (fst (main demo_fs False ''/note.txt'' ''/note.txt''))"
proof -
  have a: "\<not> os_path_exists demo_fs ''/nowhere''" "\<not> os_path_exists demo_fs ''/gone''"
    by (simp_all add: demo_fs_def)
  have b: "os_path_exists demo_fs ''/note.txt''" "\<not> os_path_isdir demo_fs ''/note.txt''"
    by (simp_all add: demo_fs_def)
  from a b combined_errors_unreachable [of demo_fs False "''/nowhere''" "''/gone''"]
    combined_errors_unreachable [of demo_fs False "''/note.txt''" "''/note.txt''"]
  show ?thesis by blast
qed


section \<open>Properties of the indexer\<close>








lemma indexed_simps:
  "indexed [] = []"
  "indexed (e # es) = indexed [e] @ indexed es"
  by (simp_all add: indexed_def)









lemma indexed_single_eq:
  "indexed [e] =
     (case probe e of
        Inl _ \<Rightarrow> []
      | Inr n \<Rightarrow>
          if is_file n
          then (case stat_size e of Inl _ \<Rightarrow> [] | Inr s \<Rightarrow> [(rel_path e, s)])
          else [])"
  by (simp add: indexed_def)



lemma only_files_indexed_single:
  assumes "(p, s) \<in> set (indexed [x])"
  shows "rel_path x = p \<and> stat_size x = Inr s \<and>
         (probe x = Inr (Plain Regular) \<or> probe x = Inr (Symlink (Some Regular)))"
proof (cases "probe x")
  case (Inl err)
  with assms have False by (simp add: indexed_single_eq)
  then show ?thesis ..
next
  case (Inr nd)
  show ?thesis
  proof (cases "is_file nd")
    case False
    with assms Inr have False by (simp add: indexed_single_eq)
    then show ?thesis ..
  next
    case True
    then have nd: "nd = Plain Regular \<or> nd = Symlink (Some Regular)"
      by (cases nd) simp_all
    show ?thesis
    proof (cases "stat_size x")
      case (Inl err)
      with assms \<open>probe x = Inr nd\<close> True have False by (simp add: indexed_single_eq)
      then show ?thesis ..
    next
      case (Inr s')
      with assms \<open>probe x = Inr nd\<close> True have "p = rel_path x" and "s = s'"
        by (simp_all add: indexed_single_eq)
      with Inr \<open>probe x = Inr nd\<close> nd show ?thesis by blast
    qed
  qed
qed

lemma only_files_indexed:
  "(p, s) \<in> set (indexed listing) \<Longrightarrow>
     \<exists>e\<in>set listing. rel_path e = p \<and> stat_size e = Inr s \<and>
        (probe e = Inr (Plain Regular) \<or> probe e = Inr (Symlink (Some Regular)))"
proof (induction listing)
  case Nil
  then show ?case by (simp add: indexed_simps)
next
  case (Cons x xs)
  have i: "indexed (x # xs) = indexed [x] @ indexed xs"
    by (rule indexed_simps)
  from Cons.prems have "(p, s) \<in> set (indexed [x]) \<or> (p, s) \<in> set (indexed xs)"
    unfolding i by simp
  then show ?case
  proof
    assume "(p, s) \<in> set (indexed [x])"
    moreover have "x \<in> set (x # xs)" by simp
    ultimately show ?thesis
      using only_files_indexed_single [of p s x] by blast
  next
    assume "(p, s) \<in> set (indexed xs)"
    from Cons.IH [OF this] obtain e where "e \<in> set xs"
      and "rel_path e = p \<and> stat_size e = Inr s \<and>
           (probe e = Inr (Plain Regular) \<or> probe e = Inr (Symlink (Some Regular)))"
      by blast
    moreover from this have "e \<in> set (x # xs)" by simp
    ultimately show ?thesis by blast
  qed
qed



text \<open>
  Claim C7, at a directory that holds a symbolic link to a regular file, a broken
  link and a named pipe: the link is recorded in the index with the size of its
  target, because \<open>is_file()\<close> and \<open>stat()\<close> follow links. The pipe and the
  broken link are not recorded.
\<close>

theorem symlink_to_file_is_indexed:
  "\<lparr>rel_path = ''link.txt'', probe = Inr (Symlink (Some Regular)), stat_size = Inr 5\<rparr>
     \<in> set (rglob demo_fs ''/links'') \<and>
   snd (get_all_files_recursive demo_fs False ''/links'') = Inr [(''link.txt'', 5)] \<and>
   snd (get_all_files_recursive demo_fs True ''/links'') = Inr [(''link.txt'', 5)]"
proof -
  have "rglob demo_fs ''/links'' = demo_links_listing"
    by (simp add: demo_fs_def)
  then have "\<lparr>rel_path = ''link.txt'', probe = Inr (Symlink (Some Regular)),
              stat_size = Inr 5\<rparr> \<in> set (rglob demo_fs ''/links'')"
    by (simp add: demo_links_listing_def)
  moreover have "snd (get_all_files_recursive demo_fs False ''/links'') =
                   Inr [(''link.txt'', 5)]"
    by code_simp
  moreover have "snd (get_all_files_recursive demo_fs True ''/links'') =
                   Inr [(''link.txt'', 5)]"
    by code_simp
  ultimately show ?thesis by blast
qed





end
